theory Spec2Isabelle
  imports Main
begin

section \<open>JavaScript values\<close>

text \<open>
  The values that reach the page handler of \<^verbatim>\<open>host.js\<close>: the JSON values of
  \<^verbatim>\<open>schedule.json\<close> (null, booleans, numbers, strings, arrays, objects),
  \<^verbatim>\<open>undefined\<close>, the built-in functions an object inherits from
  \<^verbatim>\<open>Object.prototype\<close> (carried with their \<^verbatim>\<open>name\<close>), and the Buffer that
  \<^verbatim>\<open>fs.readFileSync\<close> returns. A string is a list of characters, each standing for one
  code unit of the JavaScript string. Numbers are the integers; only the test against
  zero is used on them. An object is the list of its own properties.
\<close>

datatype jsval =
    JUndefined
  | JNull
  | JBool bool
  | JNum int
  | JStr string
  | JArr "jsval list"
  | JObj "(string \<times> jsval) list"
  | JFun string
  | JBuf string

text \<open>\<^verbatim>\<open>!v\<close>: the values JavaScript treats as false.\<close>

fun js_not :: "jsval \<Rightarrow> bool" where
  "js_not JUndefined = True"
| "js_not JNull = True"
| "js_not (JBool b) = (b = False)"
| "js_not (JNum n) = (n = 0)"
| "js_not (JStr s) = (s = [])"
| "js_not (JArr xs) = False"
| "js_not (JObj kvs) = False"
| "js_not (JFun nm) = False"
| "js_not (JBuf b) = False"

definition truthy :: "jsval \<Rightarrow> bool" where
  "truthy v = (\<not> js_not v)"

text \<open>\<^verbatim>\<open>a || b\<close>: the left operand when it is truthy, the right one otherwise.\<close>

definition js_or :: "jsval \<Rightarrow> jsval \<Rightarrow> jsval" where
  "js_or a b = (if js_not a then b else a)"

text \<open>
  The properties every ordinary object inherits from \<^verbatim>\<open>Object.prototype\<close>. Reading
  \<^verbatim>\<open>o[k]\<close> on an object parsed from JSON finds the own property \<^verbatim>\<open>k\<close> first and
  these otherwise; only a key that is neither gives \<^verbatim>\<open>undefined\<close>. The accessor
  \<^verbatim>\<open>__proto__\<close> gives the prototype object itself, written here as an object with
  no further own properties.
\<close>

definition object_prototype_methods :: "string list" where
  "object_prototype_methods =
     [''__defineGetter__'', ''__defineSetter__'', ''hasOwnProperty'',
      ''__lookupGetter__'', ''__lookupSetter__'', ''isPrototypeOf'',
      ''propertyIsEnumerable'', ''toString'', ''valueOf'', ''toLocaleString'']"

definition inherited :: "string \<Rightarrow> jsval" where
  "inherited k =
     (if k = ''constructor'' then JFun ''Object''
      else if k \<in> set object_prototype_methods then JFun k
      else if k = ''__proto__'' then JObj []
      else JUndefined)"

definition obj_get :: "(string \<times> jsval) list \<Rightarrow> string \<Rightarrow> jsval" where
  "obj_get kvs k = (case map_of kvs k of Some v \<Rightarrow> v | None \<Rightarrow> inherited k)"

text \<open>
  \<^verbatim>\<open>data.k\<close> for the four keys the handler reads from a resolved entity
  (\<^verbatim>\<open>name\<close>, \<^verbatim>\<open>time_label\<close>, \<^verbatim>\<open>description\<close>, \<^verbatim>\<open>youtube_id\<close>). A function has a
  \<^verbatim>\<open>name\<close>; strings, numbers, booleans, arrays and Buffers have none of the four.
  The handler reads a member only of a truthy value, so the \<^verbatim>\<open>TypeError\<close> of a read
  on \<^verbatim>\<open>undefined\<close> or \<^verbatim>\<open>null\<close> is never reached.
\<close>

fun member_get :: "jsval \<Rightarrow> string \<Rightarrow> jsval" where
  "member_get (JObj kvs) k = obj_get kvs k"
| "member_get (JFun nm) k = (if k = ''name'' then JStr nm else inherited k)"
| "member_get v k = JUndefined"

section \<open>String operations\<close>

definition startsWith :: "string \<Rightarrow> string \<Rightarrow> bool" where
  "startsWith s p = (take (length p) s = p)"

definition endsWith :: "string \<Rightarrow> string \<Rightarrow> bool" where
  "endsWith s p = (length p \<le> length s \<and> drop (length s - length p) s = p)"

text \<open>\<^verbatim>\<open>s.lastIndexOf(t)\<close>: the greatest index at which \<^verbatim>\<open>t\<close> occurs in \<^verbatim>\<open>s\<close>, or -1.
  The search starts at the length of \<^verbatim>\<open>s\<close> and moves down to 0.\<close>

definition occurs_at :: "string \<Rightarrow> string \<Rightarrow> nat \<Rightarrow> bool" where
  "occurs_at s t i = (i + length t \<le> length s \<and> take (length t) (drop i s) = t)"

fun lastIndexOf_from :: "string \<Rightarrow> string \<Rightarrow> nat \<Rightarrow> int" where
  "lastIndexOf_from s t 0 = (if occurs_at s t 0 then 0 else - 1)"
| "lastIndexOf_from s t (Suc i) =
     (if occurs_at s t (Suc i) then int (Suc i) else lastIndexOf_from s t i)"

definition lastIndexOf :: "string \<Rightarrow> string \<Rightarrow> int" where
  "lastIndexOf s t = lastIndexOf_from s t (length s)"

text \<open>String concatenation with a value that may be \<^verbatim>\<open>undefined\<close>.\<close>

definition to_str :: "string option \<Rightarrow> string" where
  "to_str v = (case v of None \<Rightarrow> ''undefined'' | Some s \<Rightarrow> s)"

section \<open>The process: environment, module state, request context\<close>

datatype error = LessError

record schedule =
  sessions :: "(string \<times> jsval) list"
  speakers :: "(string \<times> jsval) list"

text \<open>
  What the module reads from outside at load time or calls: the mode flag, the policy
  function of \<^verbatim>\<open>deps/policy.js\<close>, the listing of the \<^verbatim>\<open>sections\<close> directory, the
  schedule, the result of \<^verbatim>\<open>calendar.days\<close>, the contents of \<^verbatim>\<open>res/amp.css\<close> when it
  can be read, and the outcome of each call of \<^verbatim>\<open>less.render\<close> (by call number; a
  rejected promise is an error).
\<close>

record env =
  isProd :: bool
  policy :: "bool \<Rightarrow> string"
  sectionsDir :: "string list"
  schedule_json :: schedule
  calendar_days :: jsval
  ampCssFile :: "string option"
  less_render :: "nat \<Rightarrow> error + string"

text \<open>The module variable \<^verbatim>\<open>fallbackProdAmpCss\<close>, with the number of calls of the
  preprocessor so far and the lengths written by \<^verbatim>\<open>console.debug\<close>.\<close>

record pstate =
  fallbackProdAmpCss :: jsval
  lessCalls :: nat
  debugLog :: "nat list"

definition init_pstate :: pstate where
  "init_pstate = \<lparr>fallbackProdAmpCss = JUndefined, lessCalls = 0, debugLog = []\<rparr>"

record ctx =
  ctx_path :: string
  url :: string
  originalUrl :: "string option"
  host :: "string option"

definition stage_now :: string where
  "stage_now = ''announce''"

definition policyHeader :: "env \<Rightarrow> string" where
  "policyHeader e = policy e (isProd e)"

definition readProdAmpCss :: "env \<Rightarrow> jsval" where
  "readProdAmpCss e = (case ampCssFile e of Some b \<Rightarrow> JBuf b | None \<Rightarrow> JUndefined)"

definition prodAmpCss :: "env \<Rightarrow> jsval" where
  "prodAmpCss e = (if isProd e then readProdAmpCss e else JUndefined)"

definition sourcePrefix_of :: "env \<Rightarrow> string" where
  "sourcePrefix_of e = (if isProd e then ''res'' else ''src'')"

section \<open>The section list\<close>

definition section_entry :: "string \<Rightarrow> string option" where
  "section_entry section =
     (let ch = (case section of [] \<Rightarrow> None | c # cs \<Rightarrow> Some c) in
      if endsWith section ''.html'' \<and> ch \<noteq> Some CHR ''_'' \<and> ch \<noteq> Some CHR ''.''
      then (let out = take (length section - 5) section in
            Some (if out = ''index'' then [] else out))
      else None)"

definition sections_of :: "string list \<Rightarrow> string list" where
  "sections_of entries = map the (filter (\<lambda>x. x \<noteq> None) (map section_entry entries))"

definition sections :: "env \<Rightarrow> string list" where
  "sections e = sections_of (sectionsDir e)"

section \<open>mountUrl\<close>

definition mountUrl :: "ctx \<Rightarrow> string" where
  "mountUrl c =
     (case originalUrl c of
        None \<Rightarrow> []
      | Some orig \<Rightarrow>
          (let index = lastIndexOf orig (url c) in
           if index = - 1 then [] else take (nat index) orig))"

definition sitePrefix_of :: "env \<Rightarrow> ctx \<Rightarrow> string" where
  "sitePrefix_of e c =
     (if isProd e then ''https://'' else ''http://'') @ to_str (host c) @ mountUrl c"

section \<open>The view scope and the effects of a request\<close>

record links =
  interestForm :: string
  livestreamForm :: string

text \<open>
  The object passed to the template. The fields set only for a resolved entity are
  absent (\<open>None\<close>) otherwise. The field \<^verbatim>\<open>prod\<close> is \<open>prod_flag\<close> and \<^verbatim>\<open>id\<close> is
  \<open>scope_id\<close> here.
\<close>

record scope =
  year :: int
  eventNo :: int
  dateString :: string
  prod_flag :: bool
  base :: string
  layout :: string
  ua :: string
  conversion :: int
  canonicalUrl :: string
  path :: string
  sourcePrefix :: string
  days :: jsval
  stage :: string
  links :: links
  scope_id :: "string option"
  bodyClass :: "string option"
  sitePrefix :: "string option"
  title :: "jsval option"
  time_label :: "jsval option"
  description :: "jsval option"
  youtube_id :: "jsval option"
  payload :: "jsval option"
  styles :: "jsval option"

datatype view = PageScope scope | SitemapScope schedule string

datatype effect =
    SetHeader string string
  | SetType string
  | Render string view
  | Send string

text \<open>A middleware either answers the request itself or calls \<^verbatim>\<open>next()\<close>.\<close>

datatype outcome = PassNext | Responded "effect list"

section \<open>The fixed routes\<close>

definition sw_middleware :: "env \<Rightarrow> ctx \<Rightarrow> outcome" where
  "sw_middleware e c =
     (if ctx_path c = ''/sw.js'' then Responded [Send (sourcePrefix_of e @ ''/sw.js'')]
      else PassNext)"

definition schedule_middleware :: "env \<Rightarrow> ctx \<Rightarrow> outcome" where
  "schedule_middleware e c =
     (if ctx_path c = ''/schedule.json'' then Responded [Send ''schedule.json'']
      else if ctx_path c = ''/googlec6dfdf23945d0d0c.html''
      then Responded [Send ''googlec6dfdf23945d0d0c.html'']
      else if ctx_path c = ''/sitemap.xml''
      then (let basepath = mountUrl c;
                hostname = host c;
                sitePrefix = (if isProd e then ''https://'' else ''http://'')
                               @ to_str hostname @ basepath
            in Responded [SetType ''text/xml'',
                          Render ''_sitemap'' (SitemapScope (schedule_json e) sitePrefix)])
      else PassNext)"

section \<open>The page handler\<close>

text \<open>The scope as built before the entity lookup. The dash of \<^verbatim>\<open>dateString\<close> is
  written by its three UTF-8 bytes.\<close>

definition base_scope :: "env \<Rightarrow> ctx \<Rightarrow> string \<Rightarrow> scope" where
  "base_scope e c p =
     (let basepath = mountUrl c;
          sitePrefix = sitePrefix_of e c;
          yr = 2019
      in \<lparr>year = yr,
          eventNo = yr - 2012,
          dateString = ''11'' @ [CHR 0xE2, CHR 0x80, CHR 0x94] @ ''12 November 2019'',
          prod_flag = isProd e,
          base = basepath,
          layout = ''devsummit'',
          ua = ''UA-41980257-1'',
          conversion = 935743779,
          canonicalUrl = sitePrefix @ ''/'' @ p,
          path = p,
          sourcePrefix = sourcePrefix_of e,
          days = calendar_days e,
          stage = stage_now,
          links = \<lparr>interestForm = ''https://docs.google.com/forms/d/e/1FAIpQLSdqEfT0jfgRNIGqibWxBe8X1Dt0a2FcHdituhRhG1tNGL1sBQ/viewform'',
                    livestreamForm = ''https://goo.gl/forms/738tmXWSbEdIWHf63''\<rparr>,
          scope_id = None, bodyClass = None, sitePrefix = None, title = None,
          time_label = None, description = None, youtube_id = None, payload = None,
          styles = None\<rparr>)"

text \<open>
  Lines 172 to 186: the lookup in \<^verbatim>\<open>schedule.sessions\<close>, then in
  \<^verbatim>\<open>schedule.speakers\<close>, and the test that sends the request to \<^verbatim>\<open>next()\<close>.
  The result is the entity with the template and the body class chosen for it, or
  \<open>None\<close> when the handler returns \<^verbatim>\<open>next()\<close>.
\<close>

definition lookup_entity :: "schedule \<Rightarrow> string \<Rightarrow> (jsval \<times> string \<times> string) option" where
  "lookup_entity sched rest =
     (let data = obj_get (sessions sched) rest;
          tmpl = ''_amp-session'';
          bc = ''schedule-popup'';
          (data, tmpl, bc) =
             (if js_not data
              then (obj_get (speakers sched) rest, ''_amp-speaker'', ''speaker-popup'')
              else (data, tmpl, bc))
      in if js_not data \<or> startsWith rest ''_'' then None else Some (data, tmpl, bc))"

text \<open>
  Lines 188 to 199: the stylesheet for an AMP page. The preprocessor is called only
  when neither \<^verbatim>\<open>prodAmpCss\<close> nor \<^verbatim>\<open>fallbackProdAmpCss\<close> holds a value; its result is
  stored in \<^verbatim>\<open>fallbackProdAmpCss\<close> only under \<^verbatim>\<open>isProd\<close>.
\<close>

definition amp_css :: "env \<Rightarrow> pstate \<Rightarrow> (error + jsval) \<times> pstate" where
  "amp_css e st =
     (let css = js_or (prodAmpCss e) (fallbackProdAmpCss st) in
      if css = JUndefined
      then (let st1 = st\<lparr>lessCalls := Suc (lessCalls st)\<rparr> in
            case less_render e (lessCalls st) of
              Inl err \<Rightarrow> (Inl err, st1)
            | Inr result_css \<Rightarrow>
                (if isProd e
                 then (Inr (JStr result_css),
                       st1\<lparr>debugLog := debugLog st1 @ [length result_css],
                           fallbackProdAmpCss := JStr result_css\<rparr>)
                 else (Inr (JStr result_css), st1)))
      else (Inr css, st))"

text \<open>The module state after \<open>n\<close> further runs of the stylesheet step, one after the
  other, whatever each of them returns.\<close>

fun after_calls :: "env \<Rightarrow> nat \<Rightarrow> pstate \<Rightarrow> pstate" where
  "after_calls e 0 st = st"
| "after_calls e (Suc n) st = after_calls e n (snd (amp_css e st))"

text \<open>Lines 202 to 211: the fields of the scope set for a resolved entity.\<close>

definition entity_scope ::
  "scope \<Rightarrow> string \<Rightarrow> string \<Rightarrow> string \<Rightarrow> jsval \<Rightarrow> jsval \<Rightarrow> scope" where
  "entity_scope sc rest bc sp data css =
     sc\<lparr>layout := ''amp'',
        scope_id := Some rest,
        bodyClass := Some bc,
        sitePrefix := Some sp,
        title := Some (js_or (member_get data ''name'') (JStr [])),
        time_label := Some (js_or (member_get data ''time_label'') (JStr [])),
        description := Some (js_or (member_get data ''description'') (JStr [])),
        youtube_id := Some (js_or (member_get data ''youtube_id'') (JBool False)),
        payload := Some data,
        styles := Some css\<rparr>"

text \<open>\<^verbatim>\<open>path || 'index'\<close> on a string.\<close>

definition template_name :: "string \<Rightarrow> string" where
  "template_name p = (if p = [] then ''index'' else p)"

text \<open>
  The handler given to the router, with the \<^verbatim>\<open>path\<close> and \<^verbatim>\<open>rest\<close> the router
  passes; \<^verbatim>\<open>rest\<close> is a string or \<^verbatim>\<open>undefined\<close>. The test \<^verbatim>\<open>if (rest)\<close> holds for a
  non-empty string only: \<open>given_rest\<close> is that string, if any.
\<close>

definition given_rest :: "string option \<Rightarrow> string option" where
  "given_rest rest = (case rest of None \<Rightarrow> None | Some r \<Rightarrow> if r = [] then None else Some r)"

definition handler ::
  "env \<Rightarrow> ctx \<Rightarrow> string \<Rightarrow> string option \<Rightarrow> pstate \<Rightarrow> (error + outcome) \<times> pstate" where
  "handler e c p rest st =
     (if p \<notin> set (sections e) then (Inr PassNext, st)
      else
        (let sp = sitePrefix_of e c;
             sc = base_scope e c p
         in case given_rest rest of
              Some r \<Rightarrow>
                (let sc1 = sc\<lparr>canonicalUrl := canonicalUrl sc @ ''/'' @ r\<rparr>
                 in case lookup_entity (schedule_json e) r of
                      None \<Rightarrow> (Inr PassNext, st)
                    | Some (data, tmpl, bc) \<Rightarrow>
                        (case amp_css e st of
                           (Inl err, st') \<Rightarrow> (Inl err, st')
                         | (Inr css, st') \<Rightarrow>
                             (Inr (Responded
                                [SetHeader ''Feature-Policy'' (policyHeader e),
                                 Render (template_name tmpl)
                                   (PageScope (entity_scope sc1 r bc sp data css))]),
                              st')))
            | None \<Rightarrow>
                (Inr (Responded
                   [SetHeader ''Feature-Policy'' (policyHeader e),
                    Render (template_name p) (PageScope sc)]), st)))"

text \<open>Whether every \<open>Render\<close> of a list of effects comes after a \<open>SetHeader\<close> of the
  given header and value.\<close>

fun header_before_render :: "string \<Rightarrow> string \<Rightarrow> bool \<Rightarrow> effect list \<Rightarrow> bool" where
  "header_before_render h v seen [] = True"
| "header_before_render h v seen (SetHeader k w # es) =
     header_before_render h v (seen \<or> (k = h \<and> w = v)) es"
| "header_before_render h v seen (Render t d # es) =
     (seen \<and> header_before_render h v seen es)"
| "header_before_render h v seen (x # es) = header_before_render h v seen es"

fun renders :: "effect list \<Rightarrow> bool" where
  "renders [] = False"
| "renders (Render t d # es) = True"
| "renders (x # es) = renders es"

text \<open>The template and the view of the first \<open>Render\<close> of a result, if any.\<close>

fun first_render :: "effect list \<Rightarrow> (string \<times> view) option" where
  "first_render [] = None"
| "first_render (Render t d # es) = Some (t, d)"
| "first_render (x # es) = first_render es"

definition rendered_template :: "(error + outcome) \<Rightarrow> string option" where
  "rendered_template r =
     (case r of
        Inr (Responded es) \<Rightarrow> map_option fst (first_render es)
      | _ \<Rightarrow> None)"

definition rendered_scope :: "(error + outcome) \<Rightarrow> scope option" where
  "rendered_scope r =
     (case r of
        Inr (Responded es) \<Rightarrow>
          (case first_render es of
             Some (t, PageScope sc) \<Rightarrow> Some sc
           | _ \<Rightarrow> None)
      | _ \<Rightarrow> None)"

section \<open>Sample data\<close>

text \<open>The dataset of the specification's example, a directory listing, a request under
  the mount point \<^verbatim>\<open>/devsummit\<close>, and one environment per mode.\<close>

definition sample_schedule :: schedule where
  "sample_schedule =
     \<lparr>sessions = [(''42'', JObj [(''name'', JStr ''Talk'')])], speakers = []\<rparr>"

definition sample_dir :: "string list" where
  "sample_dir =
     [''index.html'', ''keynote.html'', ''_amp-session.html'', ''_amp-speaker.html'',
      ''_sitemap.html'', ''.DS_Store'', ''schedule.html'', ''notes.txt'']"

definition sample_policy :: "bool \<Rightarrow> string" where
  "sample_policy b = (if b then ''geolocation none'' else ''geolocation self'')"

definition dev_env :: env where
  "dev_env =
     \<lparr>isProd = False, policy = sample_policy, sectionsDir = sample_dir,
      schedule_json = sample_schedule, calendar_days = JArr [], ampCssFile = None,
      less_render = (\<lambda>n. Inr ''body{}'')\<rparr>"

definition prod_env :: env where
  "prod_env =
     \<lparr>isProd = True, policy = sample_policy, sectionsDir = sample_dir,
      schedule_json = sample_schedule, calendar_days = JArr [], ampCssFile = None,
      less_render = (\<lambda>n. Inr ''body{}'')\<rparr>"

definition sample_ctx :: ctx where
  "sample_ctx =
     \<lparr>ctx_path = ''/keynote/42'', url = ''/keynote/42'',
      originalUrl = Some ''/devsummit/keynote/42'', host = Some ''example.org''\<rparr>"

text \<open>A schedule whose only id is reserved (it starts with an underscore) and is in
  both maps, one whose session entry is \<^verbatim>\<open>null\<close> while a speaker has the same id, and
  one whose session entry under an inherited name is \<^verbatim>\<open>null\<close>.\<close>

definition reserved_schedule :: schedule where
  "reserved_schedule =
     \<lparr>sessions = [(''_draft'', JObj [(''name'', JStr ''Hidden talk'')])],
      speakers = [(''_draft'', JObj [(''name'', JStr ''Hidden speaker'')])]\<rparr>"

definition null_session_schedule :: schedule where
  "null_session_schedule =
     \<lparr>sessions = [(''7'', JNull)],
      speakers = [(''7'', JObj [(''name'', JStr ''Ada'')])]\<rparr>"

definition shadow_schedule :: schedule where
  "shadow_schedule = \<lparr>sessions = [(''toString'', JNull)], speakers = []\<rparr>"

text \<open>Requests: one with no original URL, one whose inner URL does not occur in the
  original URL, one whose inner URL occurs twice, and the sitemap.\<close>

definition unmounted_ctx :: ctx where
  "unmounted_ctx =
     \<lparr>ctx_path = ''/keynote'', url = ''/keynote'', originalUrl = None,
      host = Some ''example.org''\<rparr>"

definition foreign_ctx :: ctx where
  "foreign_ctx =
     \<lparr>ctx_path = ''/keynote'', url = ''/keynote'', originalUrl = Some ''/x'',
      host = Some ''example.org''\<rparr>"

definition nested_ctx :: ctx where
  "nested_ctx =
     \<lparr>ctx_path = ''/keynote'', url = ''/keynote'', originalUrl = Some ''/keynote/keynote'',
      host = Some ''example.org''\<rparr>"

definition sitemap_ctx :: ctx where
  "sitemap_ctx =
     \<lparr>ctx_path = ''/sitemap.xml'', url = ''/sitemap.xml'',
      originalUrl = Some ''/devsummit/sitemap.xml'', host = Some ''example.org''\<rparr>"

definition effects_of :: "outcome \<Rightarrow> effect list" where
  "effects_of out = (case out of PassNext \<Rightarrow> [] | Responded es \<Rightarrow> es)"

section \<open>Facts about the string operations\<close>

lemma startsWith_nonempty: "startsWith r ''_'' \<Longrightarrow> r \<noteq> []"
  by (auto simp: startsWith_def)

lemma occurs_at_iff:
  "occurs_at s t i \<longleftrightarrow> (i \<le> length s \<and> (\<exists>q. s = take i s @ t @ q))"
proof
  assume a: "occurs_at s t i"
  then have le: "i + length t \<le> length s" and tk: "take (length t) (drop i s) = t"
    by (simp_all add: occurs_at_def)
  have "s = take i s @ take (length t) (drop i s) @ drop (length t) (drop i s)"
    by (simp only: append_take_drop_id)
  with tk have "s = take i s @ t @ drop (length t) (drop i s)" by simp
  with le show "i \<le> length s \<and> (\<exists>q. s = take i s @ t @ q)" by auto
next
  assume "i \<le> length s \<and> (\<exists>q. s = take i s @ t @ q)"
  then obtain q where le: "i \<le> length s" and eq: "s = take i s @ t @ q" by blast
  have "drop i s = drop i (take i s @ t @ q)" using eq by simp
  also have "\<dots> = t @ q" using le by simp
  finally have d: "drop i s = t @ q" .
  have "length s = i + length t + length q"
    using arg_cong[OF d, of length] le by simp
  then show "occurs_at s t i" by (simp add: occurs_at_def d)
qed

lemma occurs_at_append: "occurs_at (p @ t @ q) t (length p)"
  by (simp add: occurs_at_def)

lemma lastIndexOf_from_none:
  "lastIndexOf_from s t n = - 1 \<longleftrightarrow> (\<forall>i\<le>n. \<not> occurs_at s t i)"
  by (induction n) (auto simp: le_Suc_eq)

lemma lastIndexOf_from_ge: "- 1 \<le> lastIndexOf_from s t n"
  by (induction n) auto

lemma lastIndexOf_from_cases:
  "lastIndexOf_from s t n = - 1 \<or> (\<exists>k. lastIndexOf_from s t n = int k)"
proof (cases "lastIndexOf_from s t n = - 1")
  case True
  then show ?thesis by simp
next
  case False
  with lastIndexOf_from_ge[of s t n] have "0 \<le> lastIndexOf_from s t n" by linarith
  then show ?thesis by (auto dest: zero_le_imp_eq_int)
qed

lemma lastIndexOf_from_found:
  "lastIndexOf_from s t n = int k \<Longrightarrow>
     k \<le> n \<and> occurs_at s t k \<and> (\<forall>j. k < j \<and> j \<le> n \<longrightarrow> \<not> occurs_at s t j)"
proof (induction n)
  case 0
  then show ?case by (auto split: if_splits)
next
  case (Suc n)
  show ?case
  proof (cases "occurs_at s t (Suc n)")
    case True
    with Suc.prems have "k = Suc n" by simp
    with True show ?thesis by auto
  next
    case False
    with Suc.prems have "lastIndexOf_from s t n = int k" by simp
    from Suc.IH[OF this] False show ?thesis by (auto simp: le_Suc_eq)
  qed
qed

lemma occurs_at_bound: "occurs_at s t i \<Longrightarrow> i \<le> length s"
  by (simp add: occurs_at_def)

lemma last_occurrence:
  assumes "\<exists>p q. s = p @ t @ q"
  shows "\<exists>k. lastIndexOf s t = int k \<and> k \<le> length s \<and> occurs_at s t k \<and>
             (\<forall>j. k < j \<and> j \<le> length s \<longrightarrow> \<not> occurs_at s t j)"
proof -
  from assms obtain p0 q0 where pq: "s = p0 @ t @ q0" by blast
  have occ0: "occurs_at s t (length p0)"
    by (subst pq) (rule occurs_at_append)
  have "length p0 \<le> length s" using occ0 by (rule occurs_at_bound)
  with occ0 have "lastIndexOf_from s t (length s) \<noteq> - 1"
    by (auto simp: lastIndexOf_from_none)
  then obtain k where k: "lastIndexOf_from s t (length s) = int k"
    using lastIndexOf_from_cases[of s t "length s"] by blast
  from lastIndexOf_from_found[OF k] k show ?thesis
    by (auto simp: lastIndexOf_def)
qed

section \<open>mountUrl\<close>

text \<open>
  Claim C6. \<^verbatim>\<open>mountUrl\<close> returns the empty string when \<^verbatim>\<open>originalUrl\<close> is undefined,
  and when the inner URL does not occur in \<^verbatim>\<open>originalUrl\<close>; otherwise the result,
  followed by the inner URL, is a prefix of \<^verbatim>\<open>originalUrl\<close>, and no occurrence of the
  inner URL starts further right: the result is what stands before the last occurrence.
\<close>

theorem mountUrl_spec:
  "(originalUrl c = None \<longrightarrow> mountUrl c = []) \<and>
   (\<forall>orig. originalUrl c = Some orig \<longrightarrow>
      ((\<nexists>p q. orig = p @ url c @ q) \<longrightarrow> mountUrl c = []) \<and>
      ((\<exists>p q. orig = p @ url c @ q) \<longrightarrow>
         (\<exists>q. orig = mountUrl c @ url c @ q) \<and>
         (\<forall>p q. orig = p @ url c @ q \<longrightarrow> length p \<le> length (mountUrl c))))"
proof (intro conjI allI impI)
  assume "originalUrl c = None"
  then show "mountUrl c = []" by (simp add: mountUrl_def)
next
  fix orig
  assume o: "originalUrl c = Some orig" and no: "\<nexists>p q. orig = p @ url c @ q"
  have "\<forall>i\<le>length orig. \<not> occurs_at orig (url c) i"
    using no by (auto simp: occurs_at_iff)
  then have "lastIndexOf orig (url c) = - 1"
    by (simp add: lastIndexOf_def lastIndexOf_from_none)
  with o show "mountUrl c = []" by (simp add: mountUrl_def)
next
  fix orig
  assume o: "originalUrl c = Some orig" and ex: "\<exists>p q. orig = p @ url c @ q"
  from last_occurrence[OF ex] obtain k where
    k: "lastIndexOf orig (url c) = int k" and kocc: "occurs_at orig (url c) k" by blast
  have m: "mountUrl c = take k orig"
    using o k by (simp add: mountUrl_def Let_def)
  from kocc show "\<exists>q. orig = mountUrl c @ url c @ q"
    by (simp add: m occurs_at_iff)
next
  fix orig p q
  assume o: "originalUrl c = Some orig" and ex: "\<exists>p q. orig = p @ url c @ q"
    and e: "orig = p @ url c @ q"
  from last_occurrence[OF ex] obtain k where
    k: "lastIndexOf orig (url c) = int k" and kle: "k \<le> length orig"
    and kmax: "\<forall>j. k < j \<and> j \<le> length orig \<longrightarrow> \<not> occurs_at orig (url c) j" by blast
  have m: "mountUrl c = take k orig"
    using o k by (simp add: mountUrl_def Let_def)
  have occ: "occurs_at orig (url c) (length p)"
    by (subst e) (rule occurs_at_append)
  have "length p \<le> length orig" using occ by (rule occurs_at_bound)
  with kmax occ have "\<not> k < length p" by blast
  with kle show "length p \<le> length (mountUrl c)" by (simp add: m)
qed

text \<open>Claim C6 at three requests: no original URL, an original URL without the inner
  URL, and \<^verbatim>\<open>/keynote/keynote\<close> with inner URL \<^verbatim>\<open>/keynote\<close>, where the last of the two
  occurrences counts.\<close>

theorem mountUrl_spec_witness:
  "mountUrl unmounted_ctx = [] \<and>
   mountUrl foreign_ctx = [] \<and>
   (\<exists>q. ''/keynote/keynote'' = mountUrl nested_ctx @ ''/keynote'' @ q) \<and>
   length ''/keynote'' \<le> length (mountUrl nested_ctx) \<and>
   mountUrl nested_ctx = ''/keynote''"
proof -
  have a: "originalUrl unmounted_ctx = None" by (simp add: unmounted_ctx_def)
  have b: "originalUrl foreign_ctx = Some ''/x''" by (simp add: foreign_ctx_def)
  have b': "\<nexists>p q. ''/x'' = p @ url foreign_ctx @ q"
  proof
    assume "\<exists>p q. ''/x'' = p @ url foreign_ctx @ q"
    then obtain p q where "''/x'' = p @ url foreign_ctx @ q" by blast
    then have "length ''/x'' = length (p @ url foreign_ctx @ q)" by (rule arg_cong)
    then show False by (simp add: foreign_ctx_def)
  qed
  have c: "originalUrl nested_ctx = Some ''/keynote/keynote''" by (simp add: nested_ctx_def)
  have c': "''/keynote/keynote'' = ''/keynote'' @ url nested_ctx @ []"
    by (simp add: nested_ctx_def)
  then have c'': "\<exists>p q. ''/keynote/keynote'' = p @ url nested_ctx @ q" by blast
  have u: "url nested_ctx = ''/keynote''" by (simp add: nested_ctx_def)
  have 1: "mountUrl unmounted_ctx = []" using mountUrl_spec[of unmounted_ctx] a by blast
  have 2: "mountUrl foreign_ctx = []" using mountUrl_spec[of foreign_ctx] b b' by blast
  have 3: "\<exists>q. ''/keynote/keynote'' = mountUrl nested_ctx @ ''/keynote'' @ q"
    using mountUrl_spec[of nested_ctx] c c'' u by metis
  have 4: "length ''/keynote'' \<le> length (mountUrl nested_ctx)"
    using mountUrl_spec[of nested_ctx] c c' by blast
  have 5: "mountUrl nested_ctx = ''/keynote''"
    by (simp add: mountUrl_def nested_ctx_def lastIndexOf_def occurs_at_def)
  from 1 2 3 4 5 show ?thesis by blast
qed

section \<open>Reserved ids\<close>

lemma lookup_entity_underscore: "startsWith r ''_'' \<Longrightarrow> lookup_entity sched r = None"
  by (simp add: lookup_entity_def Let_def split: prod.splits)

text \<open>
  Claim C4. For a \<^verbatim>\<open>rest\<close> that starts with an underscore the handler returns
  \<^verbatim>\<open>next()\<close>: nothing is rendered, no header is set, the preprocessor is not called
  and the module state is unchanged, whatever the section list and the two maps of
  the schedule hold.
\<close>

theorem underscore_id_declines:
  "startsWith r ''_'' \<Longrightarrow> handler e c p (Some r) st = (Inr PassNext, st)"
  by (simp add: handler_def Let_def given_rest_def lookup_entity_underscore startsWith_nonempty)

text \<open>Claim C4 at the id \<^verbatim>\<open>_draft\<close>, which is in both maps.\<close>

theorem underscore_id_declines_witness:
  "startsWith ''_draft'' ''_'' \<and>
   handler (dev_env\<lparr>schedule_json := reserved_schedule\<rparr>) sample_ctx ''keynote''
     (Some ''_draft'') init_pstate = (Inr PassNext, init_pstate)"
proof -
  have h: "startsWith ''_draft'' ''_''" by (simp add: startsWith_def)
  from underscore_id_declines[OF h] h show ?thesis by simp
qed

section \<open>The section list\<close>

lemma endsWith_split: "endsWith s p \<Longrightarrow> s = take (length s - length p) s @ p"
  by (metis append_take_drop_id endsWith_def)

lemma html_split:
  assumes "endsWith s ''.html''"
  shows "s = take (length s - 5) s @ ''.html''"
proof -
  have five: "length ''.html'' = 5" by simp
  from assms have "drop (length s - length ''.html'') s = ''.html''"
    unfolding endsWith_def by (rule conjunct2)
  then have "drop (length s - 5) s = ''.html''" by (simp only: five)
  then have "take (length s - 5) s @ ''.html'' = take (length s - 5) s @ drop (length s - 5) s"
    by (simp only:)
  then show ?thesis by (simp only: append_take_drop_id)
qed

lemma first_char_underscore:
  "(case s of [] \<Rightarrow> None | c # cs \<Rightarrow> Some c) \<noteq> Some CHR ''_'' \<longleftrightarrow> \<not> startsWith s ''_''"
  by (cases s) (auto simp: startsWith_def)

lemma first_char_dot:
  "(case s of [] \<Rightarrow> None | c # cs \<Rightarrow> Some c) \<noteq> Some CHR ''.'' \<longleftrightarrow> \<not> startsWith s ''.''"
  by (cases s) (auto simp: startsWith_def)

lemma stem_index:
  assumes "endsWith s ''.html''"
  shows "take (length s - 5) s = ''index'' \<longleftrightarrow> s = ''index.html''"
proof
  assume "take (length s - 5) s = ''index''"
  with html_split[OF assms] show "s = ''index.html''" by simp
next
  assume "s = ''index.html''"
  then show "take (length s - 5) s = ''index''" by simp
qed

lemma section_entry_eq:
  "section_entry s =
     (if endsWith s ''.html'' \<and> \<not> startsWith s ''_'' \<and> \<not> startsWith s ''.''
      then Some (if s = ''index.html'' then [] else take (length s - 5) s)
      else None)"
  by (simp add: section_entry_def Let_def first_char_underscore first_char_dot stem_index)

lemma sections_of_eq:
  "sections_of entries =
     map (\<lambda>s. if s = ''index.html'' then [] else take (length s - 5) s)
       (filter (\<lambda>s. endsWith s ''.html'' \<and> \<not> startsWith s ''_'' \<and> \<not> startsWith s ''.'')
          entries)"
  by (induction entries) (simp_all add: sections_of_def section_entry_eq)

text \<open>
  Claim C8. The section list is computed from the directory listing alone: it is the
  list of the entries that end in \<^verbatim>\<open>.html\<close> and start with neither an underscore nor
  a dot, in the order of the listing, each without its last five characters, and with
  the empty string in place of \<^verbatim>\<open>index\<close>. An entry that starts with an underscore or
  a dot gives nothing, no section starts with either, \<^verbatim>\<open>index.html\<close> gives the empty
  string, and every other entry that gives a section is that section followed by
  \<^verbatim>\<open>.html\<close>.
\<close>

theorem sections_of_spec:
  "sections_of entries =
     map (\<lambda>s. if s = ''index.html'' then [] else take (length s - 5) s)
       (filter (\<lambda>s. endsWith s ''.html'' \<and> \<not> startsWith s ''_'' \<and> \<not> startsWith s ''.'')
          entries) \<and>
   (\<forall>s \<in> set entries. startsWith s ''_'' \<or> startsWith s ''.'' \<longrightarrow> section_entry s = None) \<and>
   (\<forall>x \<in> set (sections_of entries). \<not> startsWith x ''_'' \<and> \<not> startsWith x ''.'') \<and>
   section_entry ''index.html'' = Some [] \<and>
   (\<forall>s x. section_entry s = Some x \<and> s \<noteq> ''index.html'' \<longrightarrow> s = x @ ''.html'')"
proof (intro conjI)
  show "sections_of entries =
     map (\<lambda>s. if s = ''index.html'' then [] else take (length s - 5) s)
       (filter (\<lambda>s. endsWith s ''.html'' \<and> \<not> startsWith s ''_'' \<and> \<not> startsWith s ''.'')
          entries)"
    by (rule sections_of_eq)
  show "\<forall>s \<in> set entries. startsWith s ''_'' \<or> startsWith s ''.'' \<longrightarrow> section_entry s = None"
    by (auto simp: section_entry_eq)
  show "section_entry ''index.html'' = Some []"
    by (simp add: section_entry_eq endsWith_def startsWith_def)
  show "\<forall>s x. section_entry s = Some x \<and> s \<noteq> ''index.html'' \<longrightarrow> s = x @ ''.html''"
  proof (intro allI impI)
    fix s x
    assume a: "section_entry s = Some x \<and> s \<noteq> ''index.html''"
    then have e: "endsWith s ''.html''" and x: "x = take (length s - 5) s"
      by (auto simp: section_entry_eq split: if_splits)
    from html_split[OF e] x show "s = x @ ''.html''" by simp
  qed
  show "\<forall>x \<in> set (sections_of entries). \<not> startsWith x ''_'' \<and> \<not> startsWith x ''.''"
  proof
    fix x
    assume "x \<in> set (sections_of entries)"
    then obtain s where e: "endsWith s ''.html''" and n1: "\<not> startsWith s ''_''"
      and n2: "\<not> startsWith s ''.''"
      and x: "x = (if s = ''index.html'' then [] else take (length s - 5) s)"
      by (auto simp: sections_of_eq)
    show "\<not> startsWith x ''_'' \<and> \<not> startsWith x ''.''"
    proof (cases "s = ''index.html''")
      case True
      with x show ?thesis by (simp add: startsWith_def)
    next
      case False
      with x have xs: "s = x @ ''.html''" using html_split[OF e] by simp
      show ?thesis
      proof (cases x)
        case Nil
        with xs n2 show ?thesis by (simp add: startsWith_def)
      next
        case (Cons a as)
        with xs n1 n2 show ?thesis by (simp add: startsWith_def)
      qed
    qed
  qed
qed

text \<open>Claim C8 on a listing with an index page, two sections, three templates whose
  names start with an underscore, a dot file and a text file.\<close>

theorem sections_of_spec_witness:
  "sections_of sample_dir = [[], ''keynote'', ''schedule''] \<and>
   section_entry ''_sitemap.html'' = None \<and>
   section_entry ''.DS_Store'' = None \<and>
   section_entry ''keynote.html'' = Some ''keynote'' \<and>
   ''keynote.html'' = ''keynote'' @ ''.html''"
proof -
  have m: "''_sitemap.html'' \<in> set sample_dir" "''.DS_Store'' \<in> set sample_dir"
    by (simp_all add: sample_dir_def)
  have s: "startsWith ''_sitemap.html'' ''_''" "startsWith ''.DS_Store'' ''.''"
    by (simp_all add: startsWith_def)
  have k: "section_entry ''keynote.html'' = Some ''keynote''"
    by (simp add: section_entry_def endsWith_def)
  from sections_of_spec[of sample_dir] m s
  have 1: "section_entry ''_sitemap.html'' = None" and 2: "section_entry ''.DS_Store'' = None"
    by blast+
  from sections_of_spec[of sample_dir]
  have "sections_of sample_dir =
     map (\<lambda>s. if s = ''index.html'' then [] else take (length s - 5) s)
       (filter (\<lambda>s. endsWith s ''.html'' \<and> \<not> startsWith s ''_'' \<and> \<not> startsWith s ''.'')
          sample_dir)" by blast
  then have 3: "sections_of sample_dir = [[], ''keynote'', ''schedule'']"
    by (simp add: sample_dir_def endsWith_def startsWith_def)
  from sections_of_spec[of sample_dir] k
  have 4: "''keynote.html'' = ''keynote'' @ ''.html''" by simp
  from 1 2 3 k 4 show ?thesis by blast
qed

section \<open>The AMP stylesheet\<close>

lemma js_or_undefined:
  "js_or a b = JUndefined \<longleftrightarrow> (js_not a \<and> b = JUndefined)"
  by (cases a) (auto simp: js_or_def)

lemma amp_css_cached:
  "js_or (prodAmpCss e) (fallbackProdAmpCss st) \<noteq> JUndefined \<Longrightarrow>
     amp_css e st = (Inr (js_or (prodAmpCss e) (fallbackProdAmpCss st)), st)"
  by (simp add: amp_css_def Let_def)

lemma amp_css_compiled:
  "js_or (prodAmpCss e) (fallbackProdAmpCss st) = JUndefined \<Longrightarrow>
   less_render e (lessCalls st) = Inr s \<Longrightarrow>
     amp_css e st =
       (Inr (JStr s),
        if isProd e
        then st\<lparr>lessCalls := Suc (lessCalls st), debugLog := debugLog st @ [length s],
                fallbackProdAmpCss := JStr s\<rparr>
        else st\<lparr>lessCalls := Suc (lessCalls st)\<rparr>)"
  by (simp add: amp_css_def Let_def)

lemma amp_css_failed:
  "js_or (prodAmpCss e) (fallbackProdAmpCss st) = JUndefined \<Longrightarrow>
   less_render e (lessCalls st) = Inl err \<Longrightarrow>
     amp_css e st = (Inl err, st\<lparr>lessCalls := Suc (lessCalls st)\<rparr>)"
  by (simp add: amp_css_def Let_def)

text \<open>
  Claim C7. In production mode, when the stylesheet step has returned a stylesheet,
  running it again in the state it left returns the same stylesheet and leaves the
  state as it is: the count of preprocessor calls does not grow.
\<close>

theorem amp_css_prod_second_call:
  assumes prod: "isProd e" and first: "amp_css e st = (Inr css, st')"
  shows "amp_css e st' = (Inr css, st') \<and> lessCalls (snd (amp_css e st')) = lessCalls st'"
proof (cases "js_or (prodAmpCss e) (fallbackProdAmpCss st) = JUndefined")
  case False
  from amp_css_cached[OF False] first show ?thesis by simp
next
  case True
  then have und: "js_not (prodAmpCss e)" by (simp add: js_or_undefined)
  show ?thesis
  proof (cases "less_render e (lessCalls st)")
    case (Inl err)
    from amp_css_failed[OF True Inl] first show ?thesis by simp
  next
    case (Inr s)
    from amp_css_compiled[OF True Inr] first prod
    have css: "css = JStr s" and fb: "fallbackProdAmpCss st' = JStr s" by auto
    from und have "js_or (prodAmpCss e) (JStr s) = JStr s" by (simp add: js_or_def)
    with fb css have "js_or (prodAmpCss e) (fallbackProdAmpCss st') \<noteq> JUndefined"
      and "js_or (prodAmpCss e) (fallbackProdAmpCss st') = css" by simp_all
    with amp_css_cached[of e st'] show ?thesis by simp
  qed
qed

text \<open>Claim C7 in production mode without a prebuilt stylesheet: the first call
  compiles and stores, the second returns the stored string with the count still 1.\<close>

theorem amp_css_prod_second_call_witness:
  "isProd prod_env \<and>
   amp_css prod_env init_pstate =
     (Inr (JStr ''body{}''),
      \<lparr>fallbackProdAmpCss = JStr ''body{}'', lessCalls = 1, debugLog = [6]\<rparr>) \<and>
   amp_css prod_env \<lparr>fallbackProdAmpCss = JStr ''body{}'', lessCalls = 1, debugLog = [6]\<rparr> =
     (Inr (JStr ''body{}''),
      \<lparr>fallbackProdAmpCss = JStr ''body{}'', lessCalls = 1, debugLog = [6]\<rparr>)"
proof -
  have p: "isProd prod_env" by (simp add: prod_env_def)
  have f: "amp_css prod_env init_pstate =
     (Inr (JStr ''body{}''),
      \<lparr>fallbackProdAmpCss = JStr ''body{}'', lessCalls = 1, debugLog = [6]\<rparr>)"
    by (simp add: amp_css_def prod_env_def init_pstate_def prodAmpCss_def readProdAmpCss_def
        js_or_def)
  from amp_css_prod_second_call[OF p f] p f show ?thesis by simp
qed

lemma amp_css_after_store:
  "js_not (prodAmpCss e) \<Longrightarrow> fallbackProdAmpCss st = JStr s \<Longrightarrow>
     amp_css e st = (Inr (JStr s), st)"
  by (simp add: amp_css_def Let_def js_or_def)

lemma amp_css_calls:
  "js_or (prodAmpCss e) (fallbackProdAmpCss st) = JUndefined \<Longrightarrow>
     lessCalls (snd (amp_css e st)) = Suc (lessCalls st)"
  by (simp add: amp_css_def Let_def split: sum.splits)

lemma after_calls_fixed: "snd (amp_css e st) = st \<Longrightarrow> after_calls e n st = st"
  by (induction n) simp_all

lemma amp_css_dev_step:
  "\<not> isProd e \<Longrightarrow> fallbackProdAmpCss st = JUndefined \<Longrightarrow>
     fallbackProdAmpCss (snd (amp_css e st)) = JUndefined \<and>
     lessCalls (snd (amp_css e st)) = Suc (lessCalls st)"
  by (simp add: amp_css_def Let_def prodAmpCss_def js_or_def split: sum.splits)

lemma after_calls_dev:
  "\<not> isProd e \<Longrightarrow> fallbackProdAmpCss st = JUndefined \<Longrightarrow>
     fallbackProdAmpCss (after_calls e n st) = JUndefined \<and>
     lessCalls (after_calls e n st) = lessCalls st + n"
proof (induction n arbitrary: st)
  case 0
  then show ?case by simp
next
  case (Suc n)
  from amp_css_dev_step[OF Suc.prems]
  have f: "fallbackProdAmpCss (snd (amp_css e st)) = JUndefined"
    and l: "lessCalls (snd (amp_css e st)) = Suc (lessCalls st)" by simp_all
  from Suc.IH[OF Suc.prems(1) f] l show ?case by simp
qed

text \<open>
  Claim C2, as amended. When the stylesheet step has to compile and the preprocessor
  succeeds, the result is stored in \<^verbatim>\<open>fallbackProdAmpCss\<close> in production mode only.
  There every later call, after any number of calls in between, returns the stored
  string and leaves the module state as the first call left it, so the preprocessor
  is not invoked again. In non-production mode the variable stays \<^verbatim>\<open>undefined\<close>
  after any number of calls and each call invokes the preprocessor once more.
\<close>

theorem amp_css_persists_only_in_prod:
  assumes "js_or (prodAmpCss e) (fallbackProdAmpCss st) = JUndefined"
    and "less_render e (lessCalls st) = Inr s"
  shows "fst (amp_css e st) = Inr (JStr s) \<and>
         lessCalls (snd (amp_css e st)) = Suc (lessCalls st) \<and>
         fallbackProdAmpCss (snd (amp_css e st)) = (if isProd e then JStr s else JUndefined) \<and>
         lessCalls (snd (amp_css e (snd (amp_css e st)))) =
           (if isProd e then Suc (lessCalls st) else Suc (Suc (lessCalls st))) \<and>
         (if isProd e
          then (\<forall>n. amp_css e (after_calls e n (snd (amp_css e st))) =
                      (Inr (JStr s), snd (amp_css e st)))
          else (\<forall>n. fallbackProdAmpCss (after_calls e n st) = JUndefined \<and>
                     lessCalls (after_calls e n st) = lessCalls st + n))"
proof (cases "isProd e")
  case True
  from assms(1) have und: "js_not (prodAmpCss e)" by (simp add: js_or_undefined)
  from amp_css_compiled[OF assms] True
  have a: "amp_css e st = (Inr (JStr s), st\<lparr>lessCalls := Suc (lessCalls st),
             debugLog := debugLog st @ [length s], fallbackProdAmpCss := JStr s\<rparr>)" by simp
  have hit: "amp_css e (snd (amp_css e st)) = (Inr (JStr s), snd (amp_css e st))"
    by (rule amp_css_after_store[OF und]) (simp add: a)
  then have "snd (amp_css e (snd (amp_css e st))) = snd (amp_css e st)" by simp
  then have same: "after_calls e n (snd (amp_css e st)) = snd (amp_css e st)" for n
    by (rule after_calls_fixed)
  have later: "\<forall>n. amp_css e (after_calls e n (snd (amp_css e st))) =
                      (Inr (JStr s), snd (amp_css e st))"
    by (simp add: same hit)
  from hit a True have "fst (amp_css e st) = Inr (JStr s) \<and>
         lessCalls (snd (amp_css e st)) = Suc (lessCalls st) \<and>
         fallbackProdAmpCss (snd (amp_css e st)) = (if isProd e then JStr s else JUndefined) \<and>
         lessCalls (snd (amp_css e (snd (amp_css e st)))) =
           (if isProd e then Suc (lessCalls st) else Suc (Suc (lessCalls st)))"
    by simp
  with later True show ?thesis by simp
next
  case False
  from assms(1) have fb: "fallbackProdAmpCss st = JUndefined" by (simp add: js_or_undefined)
  from amp_css_compiled[OF assms] False
  have a: "amp_css e st = (Inr (JStr s), st\<lparr>lessCalls := Suc (lessCalls st)\<rparr>)" by simp
  have "js_or (prodAmpCss e) (fallbackProdAmpCss (snd (amp_css e st))) = JUndefined"
    using assms(1) by (simp add: a)
  from amp_css_calls[OF this] a False fb
  have first: "fst (amp_css e st) = Inr (JStr s) \<and>
         lessCalls (snd (amp_css e st)) = Suc (lessCalls st) \<and>
         fallbackProdAmpCss (snd (amp_css e st)) = (if isProd e then JStr s else JUndefined) \<and>
         lessCalls (snd (amp_css e (snd (amp_css e st)))) =
           (if isProd e then Suc (lessCalls st) else Suc (Suc (lessCalls st)))"
    by simp
  have "\<forall>n. fallbackProdAmpCss (after_calls e n st) = JUndefined \<and>
            lessCalls (after_calls e n st) = lessCalls st + n"
    using after_calls_dev[OF False fb] by blast
  with first False show ?thesis by simp
qed

text \<open>Claim C2, as amended, from the initial state in each mode: in production mode
  the call after three further calls still returns the stored string in the state the
  first call left; in non-production mode three calls are three invocations and the
  variable is still \<^verbatim>\<open>undefined\<close>.\<close>

theorem amp_css_persists_only_in_prod_witness:
  "fst (amp_css prod_env init_pstate) = Inr (JStr ''body{}'') \<and>
   fallbackProdAmpCss (snd (amp_css prod_env init_pstate)) = JStr ''body{}'' \<and>
   lessCalls (snd (amp_css prod_env (snd (amp_css prod_env init_pstate)))) = 1 \<and>
   amp_css prod_env
     (after_calls prod_env (Suc (Suc (Suc 0))) (snd (amp_css prod_env init_pstate))) =
     (Inr (JStr ''body{}''),
      \<lparr>fallbackProdAmpCss = JStr ''body{}'', lessCalls = 1, debugLog = [6]\<rparr>) \<and>
   fst (amp_css dev_env init_pstate) = Inr (JStr ''body{}'') \<and>
   fallbackProdAmpCss (snd (amp_css dev_env init_pstate)) = JUndefined \<and>
   lessCalls (snd (amp_css dev_env (snd (amp_css dev_env init_pstate)))) = 2 \<and>
   fallbackProdAmpCss (after_calls dev_env (Suc (Suc (Suc 0))) init_pstate) = JUndefined \<and>
   lessCalls (after_calls dev_env (Suc (Suc (Suc 0))) init_pstate) = 3"
proof -
  have p: "js_or (prodAmpCss prod_env) (fallbackProdAmpCss init_pstate) = JUndefined"
    by (simp add: js_or_def prodAmpCss_def readProdAmpCss_def prod_env_def init_pstate_def)
  have d: "js_or (prodAmpCss dev_env) (fallbackProdAmpCss init_pstate) = JUndefined"
    by (simp add: js_or_def prodAmpCss_def dev_env_def init_pstate_def)
  have lp: "less_render prod_env (lessCalls init_pstate) = Inr ''body{}''"
    by (simp add: prod_env_def)
  have ld: "less_render dev_env (lessCalls init_pstate) = Inr ''body{}''"
    by (simp add: dev_env_def)
  have mp: "isProd prod_env" and md: "\<not> isProd dev_env"
    by (simp_all add: prod_env_def dev_env_def)
  have z: "lessCalls init_pstate = 0" by (simp add: init_pstate_def)
  have st1: "snd (amp_css prod_env init_pstate) =
      \<lparr>fallbackProdAmpCss = JStr ''body{}'', lessCalls = 1, debugLog = [6]\<rparr>"
    by (simp add: amp_css_def prod_env_def init_pstate_def prodAmpCss_def readProdAmpCss_def
        js_or_def)
  from amp_css_persists_only_in_prod[OF p lp] mp
  have P: "fst (amp_css prod_env init_pstate) = Inr (JStr ''body{}'') \<and>
     fallbackProdAmpCss (snd (amp_css prod_env init_pstate)) = JStr ''body{}'' \<and>
     lessCalls (snd (amp_css prod_env (snd (amp_css prod_env init_pstate)))) = 1 \<and>
     (\<forall>n. amp_css prod_env (after_calls prod_env n (snd (amp_css prod_env init_pstate))) =
            (Inr (JStr ''body{}''), snd (amp_css prod_env init_pstate)))"
    by (simp add: z)
  then have P4: "amp_css prod_env
     (after_calls prod_env (Suc (Suc (Suc 0))) (snd (amp_css prod_env init_pstate))) =
     (Inr (JStr ''body{}''),
      \<lparr>fallbackProdAmpCss = JStr ''body{}'', lessCalls = 1, debugLog = [6]\<rparr>)"
    by (simp only: st1)
  from amp_css_persists_only_in_prod[OF d ld] md
  have D: "fst (amp_css dev_env init_pstate) = Inr (JStr ''body{}'') \<and>
     fallbackProdAmpCss (snd (amp_css dev_env init_pstate)) = JUndefined \<and>
     lessCalls (snd (amp_css dev_env (snd (amp_css dev_env init_pstate)))) = 2 \<and>
     (\<forall>n. fallbackProdAmpCss (after_calls dev_env n init_pstate) = JUndefined \<and>
           lessCalls (after_calls dev_env n init_pstate) = lessCalls init_pstate + n)"
    by (simp add: z)
  then have D4: "fallbackProdAmpCss (after_calls dev_env (Suc (Suc (Suc 0))) init_pstate) =
       JUndefined \<and>
     lessCalls (after_calls dev_env (Suc (Suc (Suc 0))) init_pstate) = 3"
    by (simp only: z) simp
  from P P4 D D4 show ?thesis by blast
qed

text \<open>Claim C2 as stated fails in non-production mode: after the first compilation
  \<^verbatim>\<open>fallbackProdAmpCss\<close> is still \<^verbatim>\<open>undefined\<close>, and the second call is the second
  invocation of the preprocessor.\<close>

theorem dev_mode_does_not_persist:
  "\<not> isProd dev_env \<and>
   fst (amp_css dev_env init_pstate) = Inr (JStr ''body{}'') \<and>
   fallbackProdAmpCss (snd (amp_css dev_env init_pstate)) = JUndefined \<and>
   lessCalls (snd (amp_css dev_env init_pstate)) = 1 \<and>
   lessCalls (snd (amp_css dev_env (snd (amp_css dev_env init_pstate)))) = 2"
  by (simp add: amp_css_def dev_env_def init_pstate_def prodAmpCss_def js_or_def)

section \<open>The page handler, case by case\<close>

lemma lookup_entity_session:
  "\<not> js_not (obj_get (sessions sched) r) \<Longrightarrow> \<not> startsWith r ''_'' \<Longrightarrow>
     lookup_entity sched r = Some (obj_get (sessions sched) r, ''_amp-session'', ''schedule-popup'')"
  by (simp add: lookup_entity_def Let_def)

lemma lookup_entity_speaker:
  "js_not (obj_get (sessions sched) r) \<Longrightarrow>
     lookup_entity sched r =
       (if js_not (obj_get (speakers sched) r) \<or> startsWith r ''_'' then None
        else Some (obj_get (speakers sched) r, ''_amp-speaker'', ''speaker-popup''))"
  by (simp add: lookup_entity_def Let_def)

lemma lookup_entity_Some:
  assumes "lookup_entity sched r = Some (data, tmpl, bc)"
  shows "truthy data \<and> \<not> startsWith r ''_'' \<and>
         (tmpl = ''_amp-session'' \<and> bc = ''schedule-popup'' \<and> data = obj_get (sessions sched) r
          \<or> tmpl = ''_amp-speaker'' \<and> bc = ''speaker-popup'' \<and>
             data = obj_get (speakers sched) r \<and> js_not (obj_get (sessions sched) r))"
proof (cases "js_not (obj_get (sessions sched) r)")
  case True
  from assms have "(if js_not (obj_get (speakers sched) r) \<or> startsWith r ''_'' then None
        else Some (obj_get (speakers sched) r, ''_amp-speaker'', ''speaker-popup'')) =
       Some (data, tmpl, bc)"
    by (simp only: lookup_entity_speaker[OF True])
  with True show ?thesis by (simp add: truthy_def split: if_splits)
next
  case False
  show ?thesis
  proof (cases "startsWith r ''_''")
    case True
    with assms show ?thesis by (simp add: lookup_entity_def Let_def split: prod.splits)
  next
    case nu: False
    from assms have "Some (obj_get (sessions sched) r, ''_amp-session'', ''schedule-popup'') =
       Some (data, tmpl, bc)"
      by (simp only: lookup_entity_session[OF False nu])
    with False nu show ?thesis by (simp add: truthy_def)
  qed
qed

lemma template_name_popup:
  "lookup_entity sched r = Some (data, tmpl, bc) \<Longrightarrow> template_name tmpl = tmpl"
  by (auto dest!: lookup_entity_Some simp: template_name_def)

lemma handler_no_section: "p \<notin> set (sections e) \<Longrightarrow> handler e c p rest st = (Inr PassNext, st)"
  by (simp add: handler_def)

lemma handler_section:
  "p \<in> set (sections e) \<Longrightarrow> given_rest rest = None \<Longrightarrow>
     handler e c p rest st =
       (Inr (Responded [SetHeader ''Feature-Policy'' (policyHeader e),
                        Render (template_name p) (PageScope (base_scope e c p))]), st)"
  by (simp add: handler_def Let_def)

lemma handler_unresolved:
  "p \<in> set (sections e) \<Longrightarrow> r \<noteq> [] \<Longrightarrow> lookup_entity (schedule_json e) r = None \<Longrightarrow>
     handler e c p (Some r) st = (Inr PassNext, st)"
  by (simp add: handler_def Let_def given_rest_def)

lemma handler_css_error:
  "p \<in> set (sections e) \<Longrightarrow> r \<noteq> [] \<Longrightarrow>
   lookup_entity (schedule_json e) r = Some (data, tmpl, bc) \<Longrightarrow>
   amp_css e st = (Inl err, st') \<Longrightarrow>
     handler e c p (Some r) st = (Inl err, st')"
  by (simp add: handler_def Let_def given_rest_def)

lemma handler_entity:
  assumes "p \<in> set (sections e)" and "r \<noteq> []"
    and "lookup_entity (schedule_json e) r = Some (data, tmpl, bc)"
    and "amp_css e st = (Inr css, st')"
  shows "handler e c p (Some r) st =
       (Inr (Responded
          [SetHeader ''Feature-Policy'' (policyHeader e),
           Render tmpl
             (PageScope
                (entity_scope
                   ((base_scope e c p)\<lparr>canonicalUrl := canonicalUrl (base_scope e c p) @ ''/'' @ r\<rparr>)
                   r bc (sitePrefix_of e c) data css))]), st')"
  using assms template_name_popup[OF assms(3)]
  by (simp add: handler_def Let_def given_rest_def)

text \<open>
  Claim C9. When the lookup resolves an entity and the stylesheet is obtained, the
  handler sets the policy header and renders the entity's template with a scope whose
  \<^verbatim>\<open>layout\<close> is \<^verbatim>\<open>amp\<close>, whose \<^verbatim>\<open>id\<close> is \<^verbatim>\<open>rest\<close>, whose \<^verbatim>\<open>bodyClass\<close> and
  \<^verbatim>\<open>sitePrefix\<close> are set, whose \<^verbatim>\<open>title\<close>, \<^verbatim>\<open>time_label\<close> and \<^verbatim>\<open>description\<close> are
  the entity's member when it is truthy and the empty string otherwise, whose
  \<^verbatim>\<open>youtube_id\<close> is the entity's member when it is truthy and \<^verbatim>\<open>false\<close> otherwise,
  whose \<^verbatim>\<open>payload\<close> is the entity, whose \<^verbatim>\<open>styles\<close> is the stylesheet, and whose
  canonical URL is the site prefix, the path and \<^verbatim>\<open>rest\<close> joined by slashes.
\<close>

theorem entity_view_scope:
  assumes "p \<in> set (sections e)" and "r \<noteq> []"
    and "lookup_entity (schedule_json e) r = Some (data, tmpl, bc)"
    and "amp_css e st = (Inr css, st')"
  shows "\<exists>sc. handler e c p (Some r) st =
           (Inr (Responded [SetHeader ''Feature-Policy'' (policyHeader e),
                            Render tmpl (PageScope sc)]), st') \<and>
         layout sc = ''amp'' \<and>
         scope_id sc = Some r \<and>
         bodyClass sc = Some bc \<and>
         sitePrefix sc =
           Some ((if isProd e then ''https://'' else ''http://'') @ to_str (host c) @ mountUrl c) \<and>
         title sc = Some (if truthy (member_get data ''name'')
                          then member_get data ''name'' else JStr []) \<and>
         time_label sc = Some (if truthy (member_get data ''time_label'')
                               then member_get data ''time_label'' else JStr []) \<and>
         description sc = Some (if truthy (member_get data ''description'')
                                then member_get data ''description'' else JStr []) \<and>
         youtube_id sc = Some (if truthy (member_get data ''youtube_id'')
                               then member_get data ''youtube_id'' else JBool False) \<and>
         payload sc = Some data \<and>
         styles sc = Some css \<and>
         canonicalUrl sc =
           (if isProd e then ''https://'' else ''http://'') @ to_str (host c) @ mountUrl c
             @ ''/'' @ p @ ''/'' @ r"
  unfolding handler_entity[OF assms]
  by (simp add: entity_scope_def base_scope_def sitePrefix_of_def js_or_def truthy_def Let_def)

lemma sample_sections: "sections dev_env = [[], ''keynote'', ''schedule'']"
  "sections prod_env = [[], ''keynote'', ''schedule'']"
  by (simp_all add: sections_def dev_env_def prod_env_def sections_of_eq sample_dir_def
      endsWith_def startsWith_def)

lemma sections_update [simp]: "sections (e\<lparr>schedule_json := s\<rparr>) = sections e"
  by (simp add: sections_def)

lemma amp_css_dev_init:
  "amp_css (dev_env\<lparr>schedule_json := s\<rparr>) init_pstate =
     (Inr (JStr ''body{}''), \<lparr>fallbackProdAmpCss = JUndefined, lessCalls = 1, debugLog = []\<rparr>)"
  by (simp add: amp_css_def dev_env_def init_pstate_def prodAmpCss_def js_or_def)

lemma amp_css_dev_init':
  "amp_css dev_env init_pstate =
     (Inr (JStr ''body{}''), \<lparr>fallbackProdAmpCss = JUndefined, lessCalls = 1, debugLog = []\<rparr>)"
  by (simp add: amp_css_def dev_env_def init_pstate_def prodAmpCss_def js_or_def)

text \<open>Claim C9 at the request for session 42 of the sample schedule.\<close>

theorem entity_view_scope_witness:
  "\<exists>sc. handler dev_env sample_ctx ''keynote'' (Some ''42'') init_pstate =
           (Inr (Responded [SetHeader ''Feature-Policy'' ''geolocation self'',
                            Render ''_amp-session'' (PageScope sc)]),
            \<lparr>fallbackProdAmpCss = JUndefined, lessCalls = 1, debugLog = []\<rparr>) \<and>
         layout sc = ''amp'' \<and> scope_id sc = Some ''42'' \<and>
         bodyClass sc = Some ''schedule-popup'' \<and>
         sitePrefix sc = Some ''http://example.org/devsummit'' \<and>
         title sc = Some (JStr ''Talk'') \<and> time_label sc = Some (JStr []) \<and>
         description sc = Some (JStr []) \<and> youtube_id sc = Some (JBool False) \<and>
         payload sc = Some (JObj [(''name'', JStr ''Talk'')]) \<and>
         styles sc = Some (JStr ''body{}'') \<and>
         canonicalUrl sc = ''http://example.org/devsummit/keynote/42''"
proof -
  have s: "''keynote'' \<in> set (sections dev_env)" by (simp add: sample_sections)
  have n: "''42'' \<noteq> []" by simp
  have l: "lookup_entity (schedule_json dev_env) ''42'' =
             Some (JObj [(''name'', JStr ''Talk'')], ''_amp-session'', ''schedule-popup'')"
    by (simp add: lookup_entity_def dev_env_def sample_schedule_def obj_get_def startsWith_def)
  have m: "mountUrl sample_ctx = ''/devsummit''"
    by (simp add: mountUrl_def sample_ctx_def lastIndexOf_def occurs_at_def)
  have h: "host sample_ctx = Some ''example.org''" by (simp add: sample_ctx_def)
  have d: "\<not> isProd dev_env" "policyHeader dev_env = ''geolocation self''"
    by (simp_all add: dev_env_def policyHeader_def sample_policy_def)
  from entity_view_scope[OF s n l amp_css_dev_init', of sample_ctx]
  show ?thesis
    by (simp add: m h d to_str_def truthy_def obj_get_def inherited_def
        object_prototype_methods_def)
qed

section \<open>Sessions before speakers\<close>

lemma obj_get_own: "map_of kvs k = Some v \<Longrightarrow> obj_get kvs k = v"
  by (simp add: obj_get_def)

lemma obj_get_absent: "map_of kvs k = None \<Longrightarrow> obj_get kvs k = inherited k"
  by (simp add: obj_get_def)

lemma rendered_entity:
  assumes "p \<in> set (sections e)" and "r \<noteq> []"
    and "lookup_entity (schedule_json e) r = Some (data, tmpl, bc)"
    and "amp_css e st = (Inr css, st')"
  shows "rendered_template (fst (handler e c p (Some r) st)) = Some tmpl"
    and "map_option bodyClass (rendered_scope (fst (handler e c p (Some r) st))) = Some (Some bc)"
    and "map_option payload (rendered_scope (fst (handler e c p (Some r) st))) = Some (Some data)"
    and "map_option title (rendered_scope (fst (handler e c p (Some r) st))) =
           Some (Some (js_or (member_get data ''name'') (JStr [])))"
  unfolding handler_entity[OF assms]
  by (simp_all add: rendered_template_def rendered_scope_def entity_scope_def)

text \<open>
  Claim C1, as amended. For a path in the section list and a non-empty \<^verbatim>\<open>rest\<close> that
  does not start with an underscore, if the sessions map holds a truthy value under
  \<^verbatim>\<open>rest\<close>, the lookup chooses that value with the template \<^verbatim>\<open>_amp-session\<close> and the
  body class \<^verbatim>\<open>schedule-popup\<close>, whatever the speakers map holds; the handler then
  renders that template with that body class and payload, unless the stylesheet step
  fails, in which case the handler fails with the same error.
\<close>

theorem session_lookup_priority:
  assumes "p \<in> set (sections e)" and "r \<noteq> []" and "\<not> startsWith r ''_''"
    and "map_of (sessions (schedule_json e)) r = Some v" and "truthy v"
  shows "lookup_entity (schedule_json e) r = Some (v, ''_amp-session'', ''schedule-popup'') \<and>
         (case fst (amp_css e st) of
            Inl err \<Rightarrow> fst (handler e c p (Some r) st) = Inl err
          | Inr css \<Rightarrow>
              rendered_template (fst (handler e c p (Some r) st)) = Some ''_amp-session'' \<and>
              map_option bodyClass (rendered_scope (fst (handler e c p (Some r) st))) =
                Some (Some ''schedule-popup'') \<and>
              map_option payload (rendered_scope (fst (handler e c p (Some r) st))) =
                Some (Some v))"
proof -
  from assms(4,5) have t: "\<not> js_not (obj_get (sessions (schedule_json e)) r)"
    by (simp add: obj_get_own truthy_def)
  from lookup_entity_session[OF t assms(3)] assms(4)
  have l: "lookup_entity (schedule_json e) r = Some (v, ''_amp-session'', ''schedule-popup'')"
    by (simp add: obj_get_own)
  obtain res st' where a: "amp_css e st = (res, st')" by (cases "amp_css e st")
  show ?thesis
  proof (cases res)
    case (Inl err)
    with a handler_css_error[OF assms(1,2) l, where st = st and err = err and st' = st' and c = c] l show ?thesis by simp
  next
    case (Inr css)
    with a have a': "amp_css e st = (Inr css, st')" by simp
    from rendered_entity(1-3)[OF assms(1,2) l a', where c = c] l a' show ?thesis by simp
  qed
qed

text \<open>Claim C1, as amended, at the example of the specification: session 42 named
  Talk, no speakers, path \<^verbatim>\<open>keynote\<close>.\<close>

theorem session_lookup_priority_witness:
  "lookup_entity sample_schedule ''42'' =
     Some (JObj [(''name'', JStr ''Talk'')], ''_amp-session'', ''schedule-popup'') \<and>
   rendered_template (fst (handler dev_env sample_ctx ''keynote'' (Some ''42'') init_pstate)) =
     Some ''_amp-session'' \<and>
   map_option bodyClass
     (rendered_scope (fst (handler dev_env sample_ctx ''keynote'' (Some ''42'') init_pstate))) =
     Some (Some ''schedule-popup'') \<and>
   map_option payload
     (rendered_scope (fst (handler dev_env sample_ctx ''keynote'' (Some ''42'') init_pstate))) =
     Some (Some (JObj [(''name'', JStr ''Talk'')])) \<and>
   member_get (JObj [(''name'', JStr ''Talk'')]) ''name'' = JStr ''Talk''"
proof -
  have s: "''keynote'' \<in> set (sections dev_env)" by (simp add: sample_sections)
  have n: "''42'' \<noteq> []" by simp
  have u: "\<not> startsWith ''42'' ''_''" by (simp add: startsWith_def)
  have m: "map_of (sessions (schedule_json dev_env)) ''42'' = Some (JObj [(''name'', JStr ''Talk'')])"
    by (simp add: dev_env_def sample_schedule_def)
  have t: "truthy (JObj [(''name'', JStr ''Talk'')])" by (simp add: truthy_def)
  have j: "schedule_json dev_env = sample_schedule" by (simp add: dev_env_def)
  have g: "member_get (JObj [(''name'', JStr ''Talk'')]) ''name'' = JStr ''Talk''"
    by (simp add: obj_get_def)
  from session_lookup_priority[OF s n u m t, where st = init_pstate and c = sample_ctx] g
  show ?thesis by (simp add: amp_css_dev_init' j)
qed

text \<open>Claim C1 as stated fails for an id in both maps that starts with an underscore
  (the handler returns \<^verbatim>\<open>next()\<close>), and for an id in both maps whose session entry is
  \<^verbatim>\<open>null\<close> (the speaker template is rendered).\<close>

theorem session_priority_counterexample:
  "map_of (sessions reserved_schedule) ''_draft'' = Some (JObj [(''name'', JStr ''Hidden talk'')]) \<and>
   map_of (speakers reserved_schedule) ''_draft'' = Some (JObj [(''name'', JStr ''Hidden speaker'')]) \<and>
   ''keynote'' \<in> set (sections (dev_env\<lparr>schedule_json := reserved_schedule\<rparr>)) \<and>
   handler (dev_env\<lparr>schedule_json := reserved_schedule\<rparr>) sample_ctx ''keynote''
     (Some ''_draft'') init_pstate = (Inr PassNext, init_pstate) \<and>
   map_of (sessions null_session_schedule) ''7'' = Some JNull \<and>
   map_of (speakers null_session_schedule) ''7'' = Some (JObj [(''name'', JStr ''Ada'')]) \<and>
   rendered_template
     (fst (handler (dev_env\<lparr>schedule_json := null_session_schedule\<rparr>) sample_ctx ''keynote''
        (Some ''7'') init_pstate)) = Some ''_amp-speaker''"
proof -
  have s: "''keynote'' \<in> set (sections (dev_env\<lparr>schedule_json := sch\<rparr>))" for sch
    by (simp add: sample_sections)
  have 1: "lookup_entity (schedule_json (dev_env\<lparr>schedule_json := reserved_schedule\<rparr>)) ''_draft''
             = None"
    by (simp add: lookup_entity_underscore startsWith_def)
  have 2: "lookup_entity (schedule_json (dev_env\<lparr>schedule_json := null_session_schedule\<rparr>)) ''7''
             = Some (JObj [(''name'', JStr ''Ada'')], ''_amp-speaker'', ''speaker-popup'')"
    by (simp add: lookup_entity_def null_session_schedule_def obj_get_def startsWith_def)
  have n: "''_draft'' \<noteq> []" "''7'' \<noteq> []" by simp_all
  from handler_unresolved[OF s n(1) 1] rendered_entity(1)[OF s n(2) 2 amp_css_dev_init] s
  show ?thesis by (simp add: reserved_schedule_def null_session_schedule_def)
qed

section \<open>The policy header\<close>

lemma handler_responds:
  assumes "fst (handler e c p rest st) = Inr (Responded effs)"
  shows "\<exists>t v. effs = [SetHeader ''Feature-Policy'' (policyHeader e), Render t v]"
proof (cases "p \<in> set (sections e)")
  case False
  with assms show ?thesis by (simp add: handler_no_section)
next
  case sec: True
  show ?thesis
  proof (cases "given_rest rest")
    case None
    with assms handler_section[OF sec None, of c st] show ?thesis by auto
  next
    case (Some r0)
    then obtain r where r: "rest = Some r" "r \<noteq> []"
      by (auto simp: given_rest_def split: option.splits if_splits)
    show ?thesis
    proof (cases "lookup_entity (schedule_json e) r")
      case None
      with assms handler_unresolved[OF sec r(2) None, of c st] r show ?thesis by simp
    next
      case (Some x)
      obtain data tmpl bc where x: "x = (data, tmpl, bc)" by (cases x)
      with Some have l: "lookup_entity (schedule_json e) r = Some (data, tmpl, bc)" by simp
      obtain res st' where a: "amp_css e st = (res, st')" by (cases "amp_css e st")
      show ?thesis
      proof (cases res)
        case (Inl err)
        with a have "amp_css e st = (Inl err, st')" by simp
        from handler_css_error[OF sec r(2) l this, of c] assms r show ?thesis by simp
      next
        case (Inr css)
        with a have "amp_css e st = (Inr css, st')" by simp
        from handler_entity[OF sec r(2) l this, of c] assms r show ?thesis by auto
      qed
    qed
  qed
qed

text \<open>
  Claim C3, as amended. Whenever the page handler answers a request it renders, and
  before that it sets the header \<^verbatim>\<open>Feature-Policy\<close> to the value the policy function
  gives for the mode flag. The sitemap route sets the content type and renders, and
  sets no header.
\<close>

theorem page_render_sets_policy_first:
  "(fst (handler e c p rest st) = Inr (Responded effs) \<longrightarrow>
      renders effs \<and> header_before_render ''Feature-Policy'' (policy e (isProd e)) False effs) \<and>
   (ctx_path c = ''/sitemap.xml'' \<longrightarrow>
      schedule_middleware e c =
        Responded [SetType ''text/xml'',
                   Render ''_sitemap'' (SitemapScope (schedule_json e) (sitePrefix_of e c))])"
proof (rule conjI)
  show "fst (handler e c p rest st) = Inr (Responded effs) \<longrightarrow>
      renders effs \<and> header_before_render ''Feature-Policy'' (policy e (isProd e)) False effs"
  proof
    assume "fst (handler e c p rest st) = Inr (Responded effs)"
    from handler_responds[OF this] obtain t v where
      "effs = [SetHeader ''Feature-Policy'' (policyHeader e), Render t v]" by blast
    then show "renders effs \<and>
        header_before_render ''Feature-Policy'' (policy e (isProd e)) False effs"
      by (simp add: policyHeader_def)
  qed
  show "ctx_path c = ''/sitemap.xml'' \<longrightarrow>
      schedule_middleware e c =
        Responded [SetType ''text/xml'',
                   Render ''_sitemap'' (SitemapScope (schedule_json e) (sitePrefix_of e c))]"
    by (simp add: schedule_middleware_def sitePrefix_of_def Let_def)
qed

text \<open>Claim C3, as amended, at a request for the index page and at the sitemap.\<close>

theorem page_render_sets_policy_first_witness:
  "fst (handler dev_env unmounted_ctx [] None init_pstate) =
     Inr (Responded [SetHeader ''Feature-Policy'' ''geolocation self'',
                     Render ''index'' (PageScope (base_scope dev_env unmounted_ctx []))]) \<and>
   renders [SetHeader ''Feature-Policy'' ''geolocation self'',
            Render ''index'' (PageScope (base_scope dev_env unmounted_ctx []))] \<and>
   header_before_render ''Feature-Policy'' ''geolocation self'' False
     [SetHeader ''Feature-Policy'' ''geolocation self'',
      Render ''index'' (PageScope (base_scope dev_env unmounted_ctx []))] \<and>
   ctx_path sitemap_ctx = ''/sitemap.xml'' \<and>
   schedule_middleware dev_env sitemap_ctx =
     Responded [SetType ''text/xml'',
                Render ''_sitemap'' (SitemapScope sample_schedule ''http://example.org/devsummit'')]"
proof -
  have s: "[] \<in> set (sections dev_env)" by (simp add: sample_sections)
  have h: "fst (handler dev_env unmounted_ctx [] None init_pstate) =
     Inr (Responded [SetHeader ''Feature-Policy'' ''geolocation self'',
                     Render ''index'' (PageScope (base_scope dev_env unmounted_ctx []))])"
    using handler_section[OF s, of None unmounted_ctx init_pstate]
    by (simp add: given_rest_def template_name_def policyHeader_def dev_env_def sample_policy_def)
  have p: "ctx_path sitemap_ctx = ''/sitemap.xml''" by (simp add: sitemap_ctx_def)
  have m: "sitePrefix_of dev_env sitemap_ctx = ''http://example.org/devsummit''"
    by (simp add: sitePrefix_of_def dev_env_def sitemap_ctx_def to_str_def mountUrl_def
        lastIndexOf_def occurs_at_def)
  have d: "policy dev_env (isProd dev_env) = ''geolocation self''"
    "schedule_json dev_env = sample_schedule"
    by (simp_all add: dev_env_def sample_policy_def)
  from page_render_sets_policy_first[of dev_env unmounted_ctx "[]" None init_pstate
      "[SetHeader ''Feature-Policy'' ''geolocation self'',
        Render ''index'' (PageScope (base_scope dev_env unmounted_ctx []))]"] h
  have 1: "renders [SetHeader ''Feature-Policy'' ''geolocation self'',
            Render ''index'' (PageScope (base_scope dev_env unmounted_ctx []))] \<and>
     header_before_render ''Feature-Policy'' ''geolocation self'' False
     [SetHeader ''Feature-Policy'' ''geolocation self'',
      Render ''index'' (PageScope (base_scope dev_env unmounted_ctx []))]"
    by (simp add: d)
  from page_render_sets_policy_first[where e = dev_env and c = sitemap_ctx] p
  have 2: "schedule_middleware dev_env sitemap_ctx =
     Responded [SetType ''text/xml'',
                Render ''_sitemap'' (SitemapScope sample_schedule ''http://example.org/devsummit'')]"
    by (simp add: d m)
  from h 1 p 2 show ?thesis by blast
qed

text \<open>Claim C3 as stated fails at \<^verbatim>\<open>/sitemap.xml\<close>: a template is rendered and the
  header \<^verbatim>\<open>Feature-Policy\<close> has not been set.\<close>

theorem sitemap_render_counterexample:
  "effects_of (schedule_middleware dev_env sitemap_ctx) =
     [SetType ''text/xml'',
      Render ''_sitemap'' (SitemapScope sample_schedule ''http://example.org/devsummit'')] \<and>
   renders (effects_of (schedule_middleware dev_env sitemap_ctx)) \<and>
   \<not> header_before_render ''Feature-Policy'' (policyHeader dev_env) False
        (effects_of (schedule_middleware dev_env sitemap_ctx))"
  by (simp add: schedule_middleware_def effects_of_def sitemap_ctx_def dev_env_def to_str_def
      mountUrl_def lastIndexOf_def occurs_at_def)

section \<open>Ids that are names inherited from Object.prototype\<close>

text \<open>An id that is in neither map and is not an inherited name is declined, and a
  falsy session entry under such an id sends the lookup to the speakers map.\<close>

lemma unknown_id_declines:
  assumes "r \<noteq> []" and "map_of (sessions (schedule_json e)) r = None"
    and "map_of (speakers (schedule_json e)) r = None" and "inherited r = JUndefined"
  shows "handler e c p (Some r) st = (Inr PassNext, st)"
proof (cases "p \<in> set (sections e)")
  case False
  then show ?thesis by (rule handler_no_section)
next
  case True
  from assms(2,4) have s: "js_not (obj_get (sessions (schedule_json e)) r)"
    by (simp add: obj_get_absent)
  from assms(3,4) have "js_not (obj_get (speakers (schedule_json e)) r)"
    by (simp add: obj_get_absent)
  with lookup_entity_speaker[OF s] have "lookup_entity (schedule_json e) r = None" by simp
  from handler_unresolved[OF True assms(1) this] show ?thesis .
qed

lemma falsy_session_falls_through:
  assumes "map_of (sessions sched) r = Some v" and "js_not v"
  shows "lookup_entity sched r =
       (if js_not (obj_get (speakers sched) r) \<or> startsWith r ''_'' then None
        else Some (obj_get (speakers sched) r, ''_amp-speaker'', ''speaker-popup''))"
proof -
  from assms have "js_not (obj_get (sessions sched) r)" by (simp add: obj_get_own)
  then show ?thesis by (rule lookup_entity_speaker)
qed

text \<open>
  Claim C5 at \<^verbatim>\<open>rest = constructor\<close>, which is an id of no session and of no speaker
  of the sample schedule: the lookup in the sessions object finds the inherited
  \<^verbatim>\<open>Object.prototype.constructor\<close>, a function and so truthy, and the handler renders
  the session template with the title \<^verbatim>\<open>Object\<close> where the claim has it call
  \<^verbatim>\<open>next()\<close>.
\<close>

theorem inherited_name_is_rendered:
  "map_of (sessions sample_schedule) ''constructor'' = None \<and>
   map_of (speakers sample_schedule) ''constructor'' = None \<and>
   rendered_template
     (fst (handler dev_env sample_ctx ''keynote'' (Some ''constructor'') init_pstate)) =
     Some ''_amp-session'' \<and>
   map_option title
     (rendered_scope
        (fst (handler dev_env sample_ctx ''keynote'' (Some ''constructor'') init_pstate))) =
     Some (Some (JStr ''Object''))"
proof -
  have s: "''keynote'' \<in> set (sections dev_env)" by (simp add: sample_sections)
  have n: "''constructor'' \<noteq> []" by simp
  have l: "lookup_entity (schedule_json dev_env) ''constructor'' =
             Some (JFun ''Object'', ''_amp-session'', ''schedule-popup'')"
    by (simp add: lookup_entity_def dev_env_def sample_schedule_def obj_get_def inherited_def
        startsWith_def)
  from rendered_entity(1,4)[OF s n l amp_css_dev_init', where c = sample_ctx]
  show ?thesis by (simp add: sample_schedule_def js_or_def)
qed

text \<open>
  Claim C10 at \<^verbatim>\<open>rest = toString\<close> with the session entry \<^verbatim>\<open>null\<close> and no speakers:
  the lookup falls through to the speakers object, finds the inherited function there
  and renders the speaker template, where the claim has the handler decline; and with
  the id absent from sessions the session template is rendered instead, so a falsy
  entry is not treated like an absent one.
\<close>

theorem null_session_under_inherited_name:
  "map_of (sessions shadow_schedule) ''toString'' = Some JNull \<and>
   map_of (speakers shadow_schedule) ''toString'' = None \<and>
   rendered_template
     (fst (handler (dev_env\<lparr>schedule_json := shadow_schedule\<rparr>) sample_ctx ''keynote''
        (Some ''toString'') init_pstate)) = Some ''_amp-speaker'' \<and>
   map_option title
     (rendered_scope
        (fst (handler (dev_env\<lparr>schedule_json := shadow_schedule\<rparr>) sample_ctx ''keynote''
           (Some ''toString'') init_pstate))) = Some (Some (JStr ''toString'')) \<and>
   rendered_template
     (fst (handler (dev_env\<lparr>schedule_json := \<lparr>sessions = [], speakers = []\<rparr>\<rparr>) sample_ctx
        ''keynote'' (Some ''toString'') init_pstate)) = Some ''_amp-session''"
proof -
  have s: "''keynote'' \<in> set (sections (dev_env\<lparr>schedule_json := sch\<rparr>))" for sch
    by (simp add: sample_sections)
  have n: "''toString'' \<noteq> []" by simp
  have 1: "lookup_entity (schedule_json (dev_env\<lparr>schedule_json := shadow_schedule\<rparr>)) ''toString''
             = Some (JFun ''toString'', ''_amp-speaker'', ''speaker-popup'')"
    by (simp add: lookup_entity_def shadow_schedule_def obj_get_def inherited_def
        object_prototype_methods_def startsWith_def)
  have 2: "lookup_entity
             (schedule_json (dev_env\<lparr>schedule_json := \<lparr>sessions = [], speakers = []\<rparr>\<rparr>))
             ''toString'' = Some (JFun ''toString'', ''_amp-session'', ''schedule-popup'')"
    by (simp add: lookup_entity_def obj_get_def inherited_def
        object_prototype_methods_def startsWith_def)
  from rendered_entity(1,4)[OF s n 1 amp_css_dev_init, where c = sample_ctx]
    rendered_entity(1)[OF s n 2 amp_css_dev_init, where c = sample_ctx]
  show ?thesis by (simp add: shadow_schedule_def js_or_def)
qed

end
